theory Spec2Isabelle
  imports Complex_Main "HOL-Library.Sublist"
begin

section \<open>Data model of \<open>src/api/analyze.js\<close>\<close>

text \<open>
  The module exports one request handler and four helpers: three analyzers
  (\<open>analyzeQueryFraming\<close>, \<open>analyzeNetwork\<close>, \<open>analyzeSimplifiedEEAT\<close>) and
  \<open>synthesizeScore\<close>. The request body carries \<open>userQuery\<close>, a string, and
  \<open>citedSources\<close>, a list of objects with one field \<open>url\<close>. A missing
  \<open>citedSources\<close> is handled by the code exactly like the empty list
  (\<open>!sources || sources.length === 0\<close>), so the model takes a list.

  JavaScript strings are modelled as \<open>string\<close>, with each \<open>char\<close> read as a code unit
  below 256.
\<close>

record source =
  url :: string

record analyzer_result =
  score :: int
  details :: string

record framing_result = analyzer_result +
  isBiased :: bool

record analysis_results =
  queryFraming :: framing_result
  networkAnalysis :: analyzer_result
  simplifiedEEAT :: analyzer_result

record response =
  overallScore :: int
  summary :: string
  alternativeAnswer :: string
  metrics :: analysis_results

text \<open>
  The only exception that leaves an analyzer is the \<open>TypeError\<close> of \<open>new URL(src.url)\<close>,
  which both \<open>analyzeNetwork\<close> (line 71) and \<open>analyzeSimplifiedEEAT\<close> (line 105) evaluate
  outside their \<open>try\<close> blocks.
\<close>

datatype error = InvalidURL string

subsection \<open>The environment and the external capabilities\<close>

text \<open>
  What the chat completion call of \<open>analyzeQueryFraming\<close> (lines 49 to 59) yields:
  either something inside the \<open>try\<close> block throws (\<open>fetch\<close> rejects, the body is not JSON,
  \<open>data.choices[0].message.content\<close> does not exist or is not a string), or
  \<open>data.choices[0].message.content\<close> is a string.
\<close>

datatype chat_outcome = ChatThrows | ChatContent string

text \<open>
  What \<open>await response.json()\<close> yields in \<open>analyzeSimplifiedEEAT\<close> (line 111), as far as
  line 112 can tell: the promise rejects (\<open>NotJson\<close>); the body is the JSON value
  \<open>null\<close>, on which the property access \<open>data.search_information\<close> throws
  (\<open>JsonNull\<close>); or it is any other JSON value, and then
  \<open>data.search_information?.total_results\<close> is either absent (\<open>JsonValue None\<close>, which
  stands for \<open>undefined\<close> and \<open>null\<close>) or a number (\<open>JsonValue (Some c)\<close>). Result counts
  are integers; a \<open>total_results\<close> that is neither absent nor a number is outside the model.
\<close>

datatype json_body = NotJson | JsonNull | JsonValue "int option"

text \<open>
  What \<open>fetch\<close> yields for the search request (line 110): it rejects on a network error,
  and otherwise resolves to a response with an HTTP status and a body, whatever the
  status is.
\<close>

datatype search_outcome = FetchRejects | HttpResponse nat json_body

text \<open>
  The world one request runs in: the two environment variables, the URL parser of the
  platform (\<open>None\<close> where \<open>new URL(u)\<close> throws, otherwise the \<open>hostname\<close>), DNS
  (\<open>None\<close> where \<open>dns.lookup\<close> rejects, otherwise the \<open>address\<close>), the chat completion
  service by user query and the search service by domain. Each analyzer calls a
  capability at most once for each argument, so a function describes every behaviour of
  a capability that settles.
\<close>

record world =
  DEEPSEEK_API_KEY :: "string option"
  SEARCH_API_KEY :: "string option"
  url_hostname :: "string \<Rightarrow> string option"
  dns_lookup :: "string \<Rightarrow> string option"
  chat_completion :: "string \<Rightarrow> chat_outcome"
  serp_search :: "string \<Rightarrow> search_outcome"

text \<open>\<open>!apiKey\<close> holds for an unset variable and for the empty string.\<close>

definition falsy_key :: "string option \<Rightarrow> bool" where
  "falsy_key k = (case k of None \<Rightarrow> True | Some s \<Rightarrow> s = [])"

section \<open>Platform functions\<close>

text \<open>
  \<open>String.prototype.trim\<close> on code units below 256: the white space and line terminator
  characters there are U+0009 to U+000D, U+0020 and U+00A0.
\<close>

definition is_space :: "char \<Rightarrow> bool" where
  "is_space c = (let n = (of_char c :: nat) in (9 \<le> n \<and> n \<le> 13) \<or> n = 32 \<or> n = 160)"

definition trim :: "string \<Rightarrow> string" where
  "trim s = rev (dropWhile is_space (rev (dropWhile is_space s)))"

text \<open>
  \<open>String.prototype.toLowerCase\<close> on code units below 256: A to Z, and U+00C0 to U+00DE
  except the multiplication sign U+00D7, move up by 32.
\<close>

definition lower_char :: "char \<Rightarrow> char" where
  "lower_char c =
     (let n = (of_char c :: nat)
      in if (65 \<le> n \<and> n \<le> 90) \<or> (192 \<le> n \<and> n \<le> 222 \<and> n \<noteq> 215)
         then char_of (n + 32) else c)"

definition toLowerCase :: "string \<Rightarrow> string" where
  "toLowerCase s = map lower_char s"

text \<open>\<open>String.prototype.includes\<close>: the pattern occurs at some position.\<close>

fun str_includes :: "string \<Rightarrow> string \<Rightarrow> bool" where
  "str_includes [] pat = (pat = [])"
| "str_includes (c # cs) pat = (prefix pat (c # cs) \<or> str_includes cs pat)"

text \<open>The decimal digits a template literal prints for a size.\<close>

fun show_nat :: "nat \<Rightarrow> string" where
  "show_nat n =
     (if n < 10 then [char_of (48 + n)]
      else show_nat (n div 10) @ [char_of (48 + n mod 10)])"

declare show_nat.simps [simp del]

text \<open>
  \<open>Math.round\<close>: the integer nearest to the argument, a half rounding up. The model
  computes with exact rationals where the code computes with doubles.
\<close>

definition math_round :: "rat \<Rightarrow> int" where
  "math_round x = \<lfloor>x + 1 / 2\<rfloor>"

text \<open>
  A JavaScript \<open>Set\<close> of strings is a list without repetition in insertion order:
  \<open>add\<close> appends an element that is not there yet, \<open>new Set(xs)\<close> adds the elements of
  \<open>xs\<close> in order, and \<open>size\<close> is the length.
\<close>

definition set_add :: "string list \<Rightarrow> string \<Rightarrow> string list" where
  "set_add s x = (if x \<in> set s then s else s @ [x])"

definition new_Set :: "string list \<Rightarrow> string list" where
  "new_Set xs = foldl set_add [] xs"

section \<open>The analyzers\<close>

subsection \<open>\<open>analyzeQueryFraming\<close>, lines 39 to 66\<close>

definition analyzeQueryFraming :: "world \<Rightarrow> string \<Rightarrow> framing_result" where
  "analyzeQueryFraming w userQuery =
     (if falsy_key (DEEPSEEK_API_KEY w)
      then \<lparr>score = 100, details = ''Analysis skipped: API Key not configured.'',
            isBiased = False\<rparr>
      else case chat_completion w userQuery of
             ChatThrows \<Rightarrow>
               \<lparr>score = 100, details = ''Analysis could not be performed.'',
                isBiased = False\<rparr>
           | ChatContent content \<Rightarrow>
               (let result = toLowerCase (trim content);
                    biased = str_includes result ''biased''
                in \<lparr>score = (if biased then 50 else 100),
                    details = ''Query was classified as: '' @ result,
                    isBiased = biased\<rparr>))"

subsection \<open>The unique domains, lines 71 and 105\<close>

text \<open>
  \<open>sources.map(src => new URL(src.url).hostname)\<close> stops at the first URL that does not
  parse, with the exception of \<open>new URL\<close>.
\<close>

fun hostnames :: "world \<Rightarrow> source list \<Rightarrow> error + string list" where
  "hostnames w [] = Inr []"
| "hostnames w (src # rest) =
     (case url_hostname w (url src) of
        None \<Rightarrow> Inl (InvalidURL (url src))
      | Some h \<Rightarrow>
          (case hostnames w rest of
             Inl e \<Rightarrow> Inl e
           | Inr hs \<Rightarrow> Inr (h # hs)))"

definition uniqueDomains :: "world \<Rightarrow> source list \<Rightarrow> error + string list" where
  "uniqueDomains w sources =
     (case hostnames w sources of
        Inl e \<Rightarrow> Inl e
      | Inr hs \<Rightarrow> Inr (new_Set hs))"

subsection \<open>\<open>analyzeNetwork\<close>, lines 68 to 92\<close>

text \<open>
  One iteration of the loop of lines 75 to 87 on the state \<open>(ipMap, sharedIpDomains)\<close>.
  A lookup that rejects leaves the state as it is. \<open>ipMap\<close> is an object used as a
  dictionary from addresses to arrays of domains; an address is the text of an IP
  address, so it is never the name of an inherited property, and an array is truthy.
\<close>

definition network_step ::
  "world \<Rightarrow> (string \<rightharpoonup> string list) \<times> string list \<Rightarrow> string
     \<Rightarrow> (string \<rightharpoonup> string list) \<times> string list" where
  "network_step w st domain =
     (case st of (ipMap, sharedIpDomains) \<Rightarrow>
        (case dns_lookup w domain of
           None \<Rightarrow> (ipMap, sharedIpDomains)
         | Some address \<Rightarrow>
             (case ipMap address of
                Some ds \<Rightarrow>
                  (ipMap(address \<mapsto> ds @ [domain]),
                   foldl set_add sharedIpDomains (ds @ [domain]))
              | None \<Rightarrow> (ipMap(address \<mapsto> [domain]), sharedIpDomains))))"

definition network_loop ::
  "world \<Rightarrow> string list \<Rightarrow> (string \<rightharpoonup> string list) \<times> string list" where
  "network_loop w domains = foldl (network_step w) (Map.empty, []) domains"

definition network_result :: "string list \<Rightarrow> analyzer_result" where
  "network_result sharedIpDomains =
     (let penalty = int (length sharedIpDomains) * 20;
          sc = max 0 (100 - penalty)
      in \<lparr>score = sc,
          details = show_nat (length sharedIpDomains)
                    @ '' domains may be part of a shared network.''\<rparr>)"

definition analyzeNetwork :: "world \<Rightarrow> source list \<Rightarrow> error + analyzer_result" where
  "analyzeNetwork w sources =
     (if sources = [] then Inr \<lparr>score = 100, details = ''No sources to analyze.''\<rparr>
      else case uniqueDomains w sources of
             Inl e \<Rightarrow> Inl e
           | Inr domains \<Rightarrow> Inr (network_result (snd (network_loop w domains))))"

subsection \<open>\<open>analyzeSimplifiedEEAT\<close>, lines 94 to 125\<close>

text \<open>
  One iteration of the loop of lines 107 to 121 on the state
  \<open>(totalAuthorityScore, lowAuthorityCount)\<close>. \<open>resultCount\<close> is
  \<open>data.search_information?.total_results || 0\<close>: an absent count and the count 0 both
  give 0. Everything that throws inside \<open>try\<close> does so before the state changes.
\<close>

definition authority_step :: "world \<Rightarrow> int \<times> nat \<Rightarrow> string \<Rightarrow> int \<times> nat" where
  "authority_step w st domain =
     (case st of (totalAuthorityScore, lowAuthorityCount) \<Rightarrow>
        (case serp_search w domain of
           FetchRejects \<Rightarrow> (totalAuthorityScore + 50, lowAuthorityCount)
         | HttpResponse status body \<Rightarrow>
             (case body of
                NotJson \<Rightarrow> (totalAuthorityScore + 50, lowAuthorityCount)
              | JsonNull \<Rightarrow> (totalAuthorityScore + 50, lowAuthorityCount)
              | JsonValue total_results \<Rightarrow>
                  (let resultCount = (case total_results of None \<Rightarrow> 0 | Some c \<Rightarrow> c)
                   in if resultCount < 1000
                      then (totalAuthorityScore + 20, lowAuthorityCount + 1)
                      else if resultCount < 100000
                      then (totalAuthorityScore + 70, lowAuthorityCount)
                      else (totalAuthorityScore + 100, lowAuthorityCount)))))"

definition authority_loop :: "world \<Rightarrow> string list \<Rightarrow> int \<times> nat" where
  "authority_loop w domains = foldl (authority_step w) (0, 0) domains"

definition authority_result :: "int \<times> nat \<Rightarrow> nat \<Rightarrow> analyzer_result" where
  "authority_result st n =
     (case st of (totalAuthorityScore, lowAuthorityCount) \<Rightarrow>
        (let averageScore = of_int totalAuthorityScore / of_nat n
         in \<lparr>score = math_round averageScore,
             details = show_nat lowAuthorityCount
                       @ '' domains have very low authority.''\<rparr>))"

definition analyzeSimplifiedEEAT :: "world \<Rightarrow> source list \<Rightarrow> error + analyzer_result" where
  "analyzeSimplifiedEEAT w sources =
     (if falsy_key (SEARCH_API_KEY w)
      then Inr \<lparr>score = 100, details = ''Analysis skipped: API Key not configured.''\<rparr>
      else if sources = [] then Inr \<lparr>score = 100, details = ''No sources to analyze.''\<rparr>
      else case uniqueDomains w sources of
             Inl e \<Rightarrow> Inl e
           | Inr domains \<Rightarrow>
               Inr (authority_result (authority_loop w domains) (length domains)))"

section \<open>\<open>synthesizeScore\<close>, lines 127 to 147\<close>

definition totalScore :: "analysis_results \<Rightarrow> rat" where
  "totalScore results =
     of_int (score (queryFraming results)) * (1 / 10)
     + of_int (score (networkAnalysis results)) * (1 / 2)
     + of_int (score (simplifiedEEAT results)) * (2 / 5)"

definition synthesizeScore :: "analysis_results \<Rightarrow> int \<times> string" where
  "synthesizeScore results =
     (let overall = math_round (totalScore results)
      in if overall < 60
         then (overall,
               ''High risk of manipulation detected. ''
               @ (if score (networkAnalysis results) < 60
                  then details (networkAnalysis results) else [])
               @ (if score (simplifiedEEAT results) < 60
                  then '' '' @ details (simplifiedEEAT results) else []))
         else if overall < 85
         then (overall, ''Medium risk detected. Please review sources with caution.'')
         else (overall, ''Low risk detected. The sources appear generally trustworthy.''))"

section \<open>The request handler, lines 5 to 35\<close>

text \<open>
  The handler awaits the three analyzers in turn; an exception of one of them rejects
  the handler's promise before any response is written.
\<close>

definition handler :: "world \<Rightarrow> string \<Rightarrow> source list \<Rightarrow> error + response" where
  "handler w userQuery citedSources =
     (let qf = analyzeQueryFraming w userQuery
      in case analyzeNetwork w citedSources of
           Inl e \<Rightarrow> Inl e
         | Inr na \<Rightarrow>
             (case analyzeSimplifiedEEAT w citedSources of
                Inl e \<Rightarrow> Inl e
              | Inr ea \<Rightarrow>
                  (let analysisResults =
                         \<lparr>queryFraming = qf, networkAnalysis = na, simplifiedEEAT = ea\<rparr>;
                       synth = synthesizeScore analysisResults
                   in Inr \<lparr>overallScore = fst synth,
                           summary = snd synth,
                           alternativeAnswer =
                             ''The Alternative Answer feature is in development. It will show a corrected response here.'',
                           metrics = analysisResults\<rparr>)))"

section \<open>Derived notions and sample worlds\<close>

text \<open>
  What one domain adds to \<open>totalAuthorityScore\<close>: the change one iteration of the loop
  makes to the first component of the state.
\<close>

definition contribution :: "world \<Rightarrow> string \<Rightarrow> int" where
  "contribution w domain = fst (authority_step w (0, 0) domain)"

text \<open>
  Sample worlds for closed instances. The URL parser and DNS are finite tables: a string
  that is not listed does not parse as a URL, a host that is not listed does not resolve.
  Two of the three hosts share an address.
\<close>

definition src :: "string \<Rightarrow> source" where
  "src u = \<lparr>url = u\<rparr>"

definition demo_urls :: "string \<Rightarrow> string option" where
  "demo_urls =
     map_of [(''http://a.example.com'', ''a.example.com''),
             (''http://a.example.com/about'', ''a.example.com''),
             (''http://b.example.com/page'', ''b.example.com''),
             (''https://c.example.org'', ''c.example.org'')]"

definition demo_dns :: "string \<Rightarrow> string option" where
  "demo_dns =
     map_of [(''a.example.com'', ''203.0.113.7''),
             (''b.example.com'', ''203.0.113.7''),
             (''c.example.org'', ''198.51.100.2'')]"

text \<open>
  A search service that reports 5000 results for the first host, answers the second
  with status 401 and a JSON error object (no \<open>search_information\<close>), and is unreachable
  for every other host.
\<close>

definition demo_search :: "string \<Rightarrow> search_outcome" where
  "demo_search d =
     (if d = ''a.example.com'' then HttpResponse 200 (JsonValue (Some 5000))
      else if d = ''b.example.com'' then HttpResponse 401 (JsonValue None)
      else FetchRejects)"

definition offline_world :: world where
  "offline_world =
     \<lparr>DEEPSEEK_API_KEY = None, SEARCH_API_KEY = None,
      url_hostname = demo_urls, dns_lookup = demo_dns,
      chat_completion = (\<lambda>q. ChatThrows), serp_search = (\<lambda>d. FetchRejects)\<rparr>"

definition online_world :: world where
  "online_world =
     \<lparr>DEEPSEEK_API_KEY = Some ''sk-demo'', SEARCH_API_KEY = Some ''serp-demo'',
      url_hostname = demo_urls, dns_lookup = demo_dns,
      chat_completion = (\<lambda>q. ChatContent '' Biased. ''), serp_search = demo_search\<rparr>"

text \<open>
  A world where five hosts resolve to one address and every host has a large result
  count.
\<close>

definition farm_urls :: "string \<Rightarrow> string option" where
  "farm_urls =
     map_of [(''http://s1.example.net'', ''s1.example.net''),
             (''http://s2.example.net'', ''s2.example.net''),
             (''http://s3.example.net'', ''s3.example.net''),
             (''http://s4.example.net'', ''s4.example.net''),
             (''http://s5.example.net'', ''s5.example.net'')]"

definition farm_world :: world where
  "farm_world =
     \<lparr>DEEPSEEK_API_KEY = None, SEARCH_API_KEY = Some ''serp-demo'',
      url_hostname = farm_urls, dns_lookup = (\<lambda>h. Some ''192.0.2.1''),
      chat_completion = (\<lambda>q. ChatThrows),
      serp_search = (\<lambda>d. HttpResponse 200 (JsonValue (Some 500000)))\<rparr>"

definition farm_sources :: "source list" where
  "farm_sources =
     [src ''http://s1.example.net'', src ''http://s2.example.net'',
      src ''http://s3.example.net'', src ''http://s4.example.net'',
      src ''http://s5.example.net'']"

section \<open>Properties of the platform functions\<close>

lemma math_round_mono: "x \<le> y \<Longrightarrow> math_round x \<le> math_round y"
  unfolding math_round_def by (simp add: floor_mono)

lemma math_round_of_int: "math_round (of_int k) = k"
  unfolding math_round_def by linarith

lemma math_round_nearest: "\<bar>of_int (math_round x) - x\<bar> \<le> 1 / 2"
  unfolding math_round_def by linarith

lemma str_includes_sublist: "str_includes s pat \<longleftrightarrow> sublist pat s"
  by (induction s) (auto simp: sublist_Cons_right)

text \<open>Trimming and lower-casing can be done in either order.\<close>

lemma trim_toLowerCase: "toLowerCase (trim s) = trim (toLowerCase s)"
proof -
  have sp: "\<And>c. is_space (lower_char c) = is_space c"
    unfolding is_space_def lower_char_def Let_def
    by (auto simp: of_char_of)
  then have comp: "is_space \<circ> lower_char = is_space" by (simp add: fun_eq_iff)
  show ?thesis
    by (simp add: toLowerCase_def trim_def dropWhile_map rev_map comp)
qed

lemma set_set_add: "set (set_add s x) = insert x (set s)"
  by (auto simp: set_add_def)

lemma distinct_set_add: "distinct s \<Longrightarrow> distinct (set_add s x)"
  by (simp add: set_add_def)

lemma set_foldl_set_add: "set (foldl set_add s xs) = set s \<union> set xs"
  by (induction xs arbitrary: s) (simp_all add: set_set_add)

lemma distinct_foldl_set_add: "distinct s \<Longrightarrow> distinct (foldl set_add s xs)"
  by (induction xs arbitrary: s) (simp_all add: distinct_set_add)

lemma set_new_Set: "set (new_Set xs) = set xs"
  by (simp add: new_Set_def set_foldl_set_add)

lemma distinct_new_Set: "distinct (new_Set xs)"
  by (simp add: new_Set_def distinct_foldl_set_add)

lemma new_Set_empty_iff: "new_Set xs = [] \<longleftrightarrow> xs = []"
  using set_new_Set [of xs] by (metis set_empty)

section \<open>Properties of the unique domains\<close>

lemma hostnames_length: "hostnames w srcs = Inr hs \<Longrightarrow> length hs = length srcs"
  by (induction srcs arbitrary: hs) (auto split: option.splits sum.splits)

lemma uniqueDomains_nonempty:
  assumes "uniqueDomains w srcs = Inr ds" and "srcs \<noteq> []"
  shows "ds \<noteq> []"
proof -
  from assms(1) obtain hs where hs: "hostnames w srcs = Inr hs" and ds: "ds = new_Set hs"
    by (auto simp: uniqueDomains_def split: sum.splits)
  from hostnames_length [OF hs] assms(2) have "hs \<noteq> []" by auto
  then show ?thesis by (simp add: ds new_Set_empty_iff)
qed

lemma hostnames_Inr_iff:
  "(\<exists>hs. hostnames w srcs = Inr hs) \<longleftrightarrow> (\<forall>s\<in>set srcs. url_hostname w (url s) \<noteq> None)"
  by (induction srcs) (auto split: option.splits sum.splits)

lemma uniqueDomains_Inr_iff:
  "(\<exists>ds. uniqueDomains w srcs = Inr ds) \<longleftrightarrow> (\<forall>s\<in>set srcs. url_hostname w (url s) \<noteq> None)"
proof -
  have "(\<exists>ds. uniqueDomains w srcs = Inr ds) \<longleftrightarrow> (\<exists>hs. hostnames w srcs = Inr hs)"
    by (auto simp: uniqueDomains_def split: sum.splits)
  then show ?thesis by (simp add: hostnames_Inr_iff)
qed

lemma analyzeNetwork_Inr_iff:
  "(\<exists>r. analyzeNetwork w srcs = Inr r) \<longleftrightarrow> (\<forall>s\<in>set srcs. url_hostname w (url s) \<noteq> None)"
proof (cases "srcs = []")
  case True
  then show ?thesis by (simp add: analyzeNetwork_def)
next
  case False
  then have "(\<exists>r. analyzeNetwork w srcs = Inr r) \<longleftrightarrow> (\<exists>ds. uniqueDomains w srcs = Inr ds)"
    by (auto simp: analyzeNetwork_def split: sum.splits)
  then show ?thesis by (simp add: uniqueDomains_Inr_iff)
qed

lemma analyzeSimplifiedEEAT_Inr_if:
  assumes "\<forall>s\<in>set srcs. url_hostname w (url s) \<noteq> None"
  shows "\<exists>r. analyzeSimplifiedEEAT w srcs = Inr r"
proof -
  from assms obtain ds where "uniqueDomains w srcs = Inr ds"
    using uniqueDomains_Inr_iff [of w srcs] by blast
  then show ?thesis by (simp add: analyzeSimplifiedEEAT_def)
qed

lemma analyzeSimplifiedEEAT_Inl_only_url:
  assumes "analyzeSimplifiedEEAT w srcs = Inl e"
  shows "\<exists>s\<in>set srcs. url_hostname w (url s) = None"
  using assms analyzeSimplifiedEEAT_Inr_if [of srcs w] by fastforce

section \<open>The loop of the network analyzer\<close>

text \<open>
  After the loop has run over \<open>ds\<close>, \<open>ipMap\<close> maps each address to the domains of
  \<open>ds\<close> that resolved to it, in order, and \<open>sharedIpDomains\<close> holds, without
  repetition, the domains whose address at least two domains of \<open>ds\<close> resolved to.
\<close>

lemma network_loop_snoc:
  "network_loop w (ds @ [d]) = network_step w (network_loop w ds) d"
  by (simp add: network_loop_def)

lemma network_loop_ipMap:
  "fst (network_loop w ds) a =
     (if filter (\<lambda>x. dns_lookup w x = Some a) ds = [] then None
      else Some (filter (\<lambda>x. dns_lookup w x = Some a) ds))"
proof (induction ds arbitrary: a rule: rev_induct)
  case Nil
  show ?case by (simp add: network_loop_def)
next
  case (snoc d ds)
  obtain m sh where st: "network_loop w ds = (m, sh)" by (cases "network_loop w ds")
  have m: "\<And>b. m b = (if filter (\<lambda>x. dns_lookup w x = Some b) ds = [] then None
                       else Some (filter (\<lambda>x. dns_lookup w x = Some b) ds))"
    using snoc.IH by (simp add: st)
  show ?case
  proof (cases "dns_lookup w d")
    case None
    then show ?thesis by (simp add: network_loop_snoc st network_step_def m)
  next
    case (Some b)
    then show ?thesis
      by (cases "filter (\<lambda>x. dns_lookup w x = Some b) ds = []")
         (auto simp: network_loop_snoc st network_step_def m)
  qed
qed

lemma network_loop_distinct: "distinct (snd (network_loop w ds))"
proof (induction ds rule: rev_induct)
  case Nil
  show ?case by (simp add: network_loop_def)
next
  case (snoc d ds)
  obtain m sh where st: "network_loop w ds = (m, sh)" by (cases "network_loop w ds")
  with snoc.IH have "distinct sh" by simp
  then show ?case
    by (simp add: network_loop_snoc st network_step_def distinct_foldl_set_add
               distinct_set_add split: option.split)
qed

lemma network_loop_shared:
  "set (snd (network_loop w ds)) =
     {x \<in> set ds. \<exists>a. dns_lookup w x = Some a
                      \<and> 2 \<le> length (filter (\<lambda>y. dns_lookup w y = Some a) ds)}"
proof (induction ds rule: rev_induct)
  case Nil
  show ?case by (simp add: network_loop_def)
next
  case (snoc d ds)
  obtain m sh where st: "network_loop w ds = (m, sh)" by (cases "network_loop w ds")
  have sh: "set sh = {x \<in> set ds. \<exists>a. dns_lookup w x = Some a
                      \<and> 2 \<le> length (filter (\<lambda>y. dns_lookup w y = Some a) ds)}"
    using snoc.IH by (simp add: st)
  have m: "\<And>b. m b = (if filter (\<lambda>x. dns_lookup w x = Some b) ds = [] then None
                       else Some (filter (\<lambda>x. dns_lookup w x = Some b) ds))"
    using network_loop_ipMap [of w ds] by (simp add: st)
  show ?case
  proof (cases "dns_lookup w d")
    case None
    then show ?thesis
      by (auto simp: network_loop_snoc st network_step_def sh)
  next
    case (Some b)
    show ?thesis
    proof (cases "filter (\<lambda>x. dns_lookup w x = Some b) ds = []")
      case True
      then have none: "\<And>x. x \<in> set ds \<Longrightarrow> dns_lookup w x \<noteq> Some b"
        by (simp add: filter_empty_conv)
      have "snd (network_loop w (ds @ [d])) = sh"
        using Some True by (simp add: network_loop_snoc st network_step_def m)
      moreover have "{x \<in> set (ds @ [d]). \<exists>a. dns_lookup w x = Some a
             \<and> 2 \<le> length (filter (\<lambda>y. dns_lookup w y = Some a) (ds @ [d]))} = set sh"
        using Some True none unfolding sh by auto
      ultimately show ?thesis by simp
    next
      case False
      then have len: "1 \<le> length (filter (\<lambda>x. dns_lookup w x = Some b) ds)"
        by (simp add: Suc_le_eq)
      have "snd (network_loop w (ds @ [d]))
            = foldl set_add sh (filter (\<lambda>x. dns_lookup w x = Some b) ds @ [d])"
        using Some False by (simp add: network_loop_snoc st network_step_def m)
      then have "set (snd (network_loop w (ds @ [d])))
            = set sh \<union> {x \<in> set ds. dns_lookup w x = Some b} \<union> {d}"
        by (auto simp: set_foldl_set_add set_set_add)
      also have "\<dots> = {x \<in> set (ds @ [d]). \<exists>a. dns_lookup w x = Some a
             \<and> 2 \<le> length (filter (\<lambda>y. dns_lookup w y = Some a) (ds @ [d]))}"
        using Some len unfolding sh by auto
      finally show ?thesis .
    qed
  qed
qed

lemma two_in_filter:
  assumes "distinct ds" and "x \<in> set ds" and "P x"
  shows "2 \<le> length (filter P ds) \<longleftrightarrow> (\<exists>y\<in>set ds. y \<noteq> x \<and> P y)"
proof -
  have d: "distinct (filter P ds)" using assms(1) by simp
  have x: "x \<in> set (filter P ds)" using assms by simp
  have c: "length (filter P ds) = card (set (filter P ds))"
    using distinct_card [OF d] by simp
  show ?thesis
  proof
    assume "2 \<le> length (filter P ds)"
    then have "card (set (filter P ds)) \<noteq> card {x}" using c by simp
    then have "set (filter P ds) \<noteq> {x}" by metis
    with x obtain y where "y \<in> set (filter P ds)" "y \<noteq> x" by blast
    then show "\<exists>y\<in>set ds. y \<noteq> x \<and> P y" by auto
  next
    assume "\<exists>y\<in>set ds. y \<noteq> x \<and> P y"
    then obtain y where y: "y \<in> set (filter P ds)" "y \<noteq> x" by auto
    with x have "{x, y} \<subseteq> set (filter P ds)" by simp
    then have "card {x, y} \<le> card (set (filter P ds))"
      by (intro card_mono) simp_all
    with y(2) show "2 \<le> length (filter P ds)" using c by simp
  qed
qed

lemma shared_iff_cohosted:
  assumes "distinct ds"
  shows "x \<in> set (snd (network_loop w ds))
         \<longleftrightarrow> x \<in> set ds \<and> dns_lookup w x \<noteq> None
             \<and> (\<exists>y\<in>set ds. y \<noteq> x \<and> dns_lookup w y = dns_lookup w x)"
proof (cases "x \<in> set ds \<and> dns_lookup w x \<noteq> None")
  case False
  then show ?thesis by (auto simp: network_loop_shared)
next
  case True
  then obtain a where a: "dns_lookup w x = Some a" and x: "x \<in> set ds" by auto
  from two_in_filter [OF assms x, of "\<lambda>y. dns_lookup w y = Some a"] a
  show ?thesis using x by (simp add: network_loop_shared)
qed

section \<open>Ranges of the analyzer scores\<close>

lemma framing_score_cases: "score (analyzeQueryFraming w q) \<in> {50, 100}"
  by (simp add: analyzeQueryFraming_def Let_def split: chat_outcome.split)

lemma network_result_range:
  "0 \<le> score (network_result s) \<and> score (network_result s) \<le> 100"
  by (simp add: network_result_def Let_def)

lemma analyzeNetwork_range:
  "analyzeNetwork w srcs = Inr r \<Longrightarrow> 0 \<le> score r \<and> score r \<le> 100"
  using network_result_range
  by (auto simp: analyzeNetwork_def split: if_splits sum.splits)

lemma authority_step_total:
  "fst (authority_step w (t, l) d) = t + contribution w d"
  by (simp add: authority_step_def contribution_def Let_def
           split: search_outcome.split json_body.split option.split)

lemma contribution_cases: "contribution w d \<in> {20, 50, 70, 100}"
  by (simp add: authority_step_def contribution_def Let_def
           split: search_outcome.split json_body.split option.split)

lemma authority_fold_total:
  "fst (foldl (authority_step w) st ds) = fst st + sum_list (map (contribution w) ds)"
proof (induction ds arbitrary: st)
  case Nil
  show ?case by simp
next
  case (Cons d ds)
  obtain t l where st: "st = (t, l)" by (cases st)
  have "fst (foldl (authority_step w) st (d # ds))
        = fst (authority_step w st d) + sum_list (map (contribution w) ds)"
    using Cons.IH [of "authority_step w st d"] by simp
  also have "fst (authority_step w st d) = fst st + contribution w d"
    by (simp add: st authority_step_total)
  finally show ?case by simp
qed

lemma authority_loop_total:
  "fst (authority_loop w ds) = sum_list (map (contribution w) ds)"
  by (simp add: authority_loop_def authority_fold_total)

lemma sum_contribution_bounds:
  "20 * int (length ds) \<le> sum_list (map (contribution w) ds)
   \<and> sum_list (map (contribution w) ds) \<le> 100 * int (length ds)"
proof (induction ds)
  case Nil
  show ?case by simp
next
  case (Cons d ds)
  have "20 \<le> contribution w d \<and> contribution w d \<le> 100"
    using contribution_cases [of w d] by auto
  with Cons.IH show ?case by simp
qed

lemma mean_round_bounds:
  fixes t :: int and n :: nat
  assumes "0 < n" and "a * int n \<le> t" and "t \<le> b * int n"
  shows "a \<le> math_round (of_int t / of_nat n) \<and> math_round (of_int t / of_nat n) \<le> b"
proof -
  have pos: "(0::rat) < of_nat n" using assms(1) by simp
  have "(of_int a :: rat) * of_nat n \<le> of_int t"
    using assms(2) by (metis of_int_le_iff of_int_mult of_int_of_nat_eq)
  then have lo: "(of_int a :: rat) \<le> of_int t / of_nat n"
    using pos by (simp add: pos_le_divide_eq)
  have "(of_int t :: rat) \<le> of_int b * of_nat n"
    using assms(3) by (metis of_int_le_iff of_int_mult of_int_of_nat_eq)
  then have hi: "(of_int t :: rat) / of_nat n \<le> of_int b"
    using pos by (simp add: pos_divide_le_eq)
  from math_round_mono [OF lo] math_round_mono [OF hi] show ?thesis
    by (simp add: math_round_of_int)
qed

lemma authority_result_range:
  assumes "ds \<noteq> []"
  shows "20 \<le> score (authority_result (authority_loop w ds) (length ds))
         \<and> score (authority_result (authority_loop w ds) (length ds)) \<le> 100"
proof -
  obtain t l where st: "authority_loop w ds = (t, l)" by (cases "authority_loop w ds")
  have t: "t = sum_list (map (contribution w) ds)"
    using authority_loop_total [of w ds] st by simp
  have n: "0 < length ds" using assms by simp
  from mean_round_bounds [OF n, of 20 t 100] sum_contribution_bounds [of ds w] t
  show ?thesis by (simp add: st authority_result_def Let_def)
qed

lemma analyzeSimplifiedEEAT_range:
  assumes "analyzeSimplifiedEEAT w srcs = Inr r"
  shows "20 \<le> score r \<and> score r \<le> 100"
proof (cases "falsy_key (SEARCH_API_KEY w) \<or> srcs = []")
  case True
  with assms show ?thesis
    by (auto simp: analyzeSimplifiedEEAT_def split: if_splits)
next
  case False
  with assms obtain ds where ds: "uniqueDomains w srcs = Inr ds"
    and r: "r = authority_result (authority_loop w ds) (length ds)"
    by (auto simp: analyzeSimplifiedEEAT_def split: sum.splits)
  from uniqueDomains_nonempty [OF ds] False have "ds \<noteq> []" by simp
  from authority_result_range [OF this] show ?thesis by (simp add: r)
qed

lemma synthesize_range:
  assumes q: "score (queryFraming res) \<in> {50, 100}"
    and n: "0 \<le> score (networkAnalysis res)" "score (networkAnalysis res) \<le> 100"
    and e: "0 \<le> score (simplifiedEEAT res)" "score (simplifiedEEAT res) \<le> 100"
  shows "0 \<le> fst (synthesizeScore res) \<and> fst (synthesizeScore res) \<le> 100"
proof -
  have f: "fst (synthesizeScore res) = math_round (totalScore res)"
    by (simp add: synthesizeScore_def Let_def)
  have lo: "(of_int 0 :: rat) \<le> totalScore res"
    using q n e unfolding totalScore_def by auto
  have hi: "totalScore res \<le> (of_int 100 :: rat)"
    using q n e unfolding totalScore_def by auto
  from math_round_mono [OF lo] math_round_mono [OF hi] show ?thesis
    unfolding f math_round_of_int by simp
qed

section \<open>Rounding with doubles\<close>

text \<open>
  The code computes \<open>totalScore\<close> and \<open>averageScore\<close> with doubles, the model with exact
  rationals. After \<open>Math.round\<close> the two agree.

  For every response of the handler, ten times the exact total plus five is an odd
  integer (the query framing and network scores are even), so the exact total is at
  least 1/10 away from every point where \<open>Math.round\<close> jumps: a perturbation of less than
  1/10 leaves the rounded value as it is (\<open>handler_rounding_stable\<close>), and the error of
  three products and two sums of doubles below 100 is far smaller.

  For the mean of \<open>n\<close> contributions with total \<open>t\<close>, either \<open>t / n\<close> is an integer plus
  a half, which is a double and the exact result of the division, or a perturbation of
  less than \<open>1 / (2 * n)\<close> leaves the rounded value as it is (\<open>mean_rounding_stable\<close>);
  the error of one division with a quotient of at most 100 is below that bound for every
  length an array can have.
\<close>

lemma floor_stable:
  fixes A B :: int and e :: rat
  assumes B: "0 < B" and nd: "A mod B \<noteq> 0" and e: "\<bar>e\<bar> < 1 / of_int B"
  shows "\<lfloor>of_int A / of_int B + e\<rfloor> = \<lfloor>of_int A / of_int B :: rat\<rfloor>"
proof -
  let ?j = "A div B" and ?r = "A mod B"
  have Bq: "(0::rat) < of_int B" using B by simp
  have r: "1 \<le> ?r" "?r \<le> B - 1"
    using B nd pos_mod_sign [of B A] pos_mod_bound [of B A] by linarith+
  have "A = B * ?j + ?r" by simp
  then have "(of_int A :: rat) = of_int B * of_int ?j + of_int ?r"
    by (metis of_int_add of_int_mult)
  then have x: "(of_int A :: rat) / of_int B = of_int ?j + of_int ?r / of_int B"
    using Bq by (simp add: field_simps)
  have lo: "(1::rat) / of_int B \<le> of_int ?r / of_int B"
    using r(1) Bq by (simp add: divide_le_cancel)
  have "(of_int ?r :: rat) \<le> of_int B - 1"
    using r(2) by (metis of_int_1 of_int_diff of_int_le_iff)
  then have "(of_int ?r :: rat) / of_int B \<le> (of_int B - 1) / of_int B"
    using Bq by (simp add: divide_le_cancel)
  also have "\<dots> = 1 - 1 / of_int B"
    using Bq by (simp add: field_simps)
  finally have hi: "(of_int ?r :: rat) / of_int B \<le> 1 - 1 / of_int B" .
  have ib: "(0::rat) < 1 / of_int B" using Bq by simp
  have "\<lfloor>of_int A / of_int B + e\<rfloor> = ?j"
    using lo hi e unfolding x by (intro floor_unique) linarith+
  moreover have "\<lfloor>of_int A / of_int B :: rat\<rfloor> = ?j"
    using lo hi ib unfolding x by (intro floor_unique) linarith+
  ultimately show ?thesis by simp
qed

lemma totalScore_tenths:
  "totalScore res + 1 / 2
   = of_int (score (queryFraming res) + 5 * score (networkAnalysis res)
             + 4 * score (simplifiedEEAT res) + 5) / of_int 10"
  by (simp add: totalScore_def field_simps)

lemma synthesize_rounding_stable:
  assumes "even (score (queryFraming res))" and "even (score (networkAnalysis res))"
    and "\<bar>e\<bar> < 1 / 10"
  shows "math_round (totalScore res + e) = math_round (totalScore res)"
proof -
  let ?A = "score (queryFraming res) + 5 * score (networkAnalysis res)
             + 4 * score (simplifiedEEAT res) + 5"
  have "odd ?A" using assms(1,2) by simp
  then have nd: "?A mod 10 \<noteq> 0" by presburger
  have st: "\<lfloor>of_int ?A / of_int 10 + e\<rfloor> = \<lfloor>of_int ?A / of_int 10 :: rat\<rfloor>"
    using assms(3) by (intro floor_stable [OF _ nd]) simp_all
  have "math_round (totalScore res + e) = \<lfloor>(totalScore res + 1 / 2) + e\<rfloor>"
    by (simp add: math_round_def ac_simps)
  also have "\<dots> = \<lfloor>totalScore res + 1 / 2\<rfloor>"
    by (simp only: totalScore_tenths st)
  finally show ?thesis by (simp add: math_round_def)
qed

lemma network_result_even: "even (score (network_result s))"
  by (simp add: network_result_def Let_def max_def)

lemma handler_rounding_stable:
  assumes "handler w userQuery citedSources = Inr r" and "\<bar>e\<bar> < 1 / 10"
  shows "math_round (totalScore (metrics r) + e) = overallScore r"
proof -
  from assms(1) obtain na ea where na: "analyzeNetwork w citedSources = Inr na"
    and ea: "analyzeSimplifiedEEAT w citedSources = Inr ea"
    and m: "metrics r = \<lparr>queryFraming = analyzeQueryFraming w userQuery,
               networkAnalysis = na, simplifiedEEAT = ea\<rparr>"
    and o: "overallScore r = fst (synthesizeScore (metrics r))"
    by (auto simp: handler_def Let_def split: sum.splits)
  have q: "even (score (queryFraming (metrics r)))"
    using framing_score_cases [of w userQuery] by (auto simp: m)
  have n: "even (score (networkAnalysis (metrics r)))"
    using na network_result_even
    by (auto simp: m analyzeNetwork_def split: if_splits sum.splits)
  have "overallScore r = math_round (totalScore (metrics r))"
    by (simp add: o synthesizeScore_def Let_def)
  with synthesize_rounding_stable [OF q n assms(2)] show ?thesis by simp
qed

lemma mean_rounding_stable:
  fixes t :: int and n :: nat
  assumes "0 < n" and "(2 * t + int n) mod (2 * int n) \<noteq> 0"
    and "\<bar>e\<bar> < 1 / of_int (2 * int n)"
  shows "math_round (of_int t / of_nat n + e) = math_round (of_int t / of_nat n)"
proof -
  have n: "(0::rat) < of_nat n" using assms(1) by simp
  have eq: "(of_int t :: rat) / of_nat n + 1 / 2
            = of_int (2 * t + int n) / of_int (2 * int n)"
    using n by (simp add: field_simps)
  have st: "\<lfloor>of_int (2 * t + int n) / of_int (2 * int n) + e\<rfloor>
        = \<lfloor>of_int (2 * t + int n) / of_int (2 * int n) :: rat\<rfloor>"
    using assms by (intro floor_stable) simp_all
  have "math_round (of_int t / of_nat n + e) = \<lfloor>(of_int t / of_nat n + 1 / 2) + e\<rfloor>"
    by (simp add: math_round_def ac_simps)
  also have "\<dots> = \<lfloor>of_int t / of_nat n + 1 / 2 :: rat\<rfloor>"
    by (simp only: eq st)
  finally show ?thesis by (simp add: math_round_def)
qed

section \<open>The overall score\<close>

text \<open>
  Claim C1. Whatever the query, the sources, the two credentials and the behaviour of the
  external capabilities are, the \<open>overallScore\<close> of a response the handler sends is an
  integer between 0 and 100. (It is an integer by its type: the value of \<open>Math.round\<close>.)
\<close>

theorem overall_score_in_range:
  assumes "handler w userQuery citedSources = Inr r"
  shows "0 \<le> overallScore r \<and> overallScore r \<le> 100"
proof -
  from assms obtain na ea where na: "analyzeNetwork w citedSources = Inr na"
    and ea: "analyzeSimplifiedEEAT w citedSources = Inr ea"
    and r: "overallScore r = fst (synthesizeScore
              \<lparr>queryFraming = analyzeQueryFraming w userQuery,
               networkAnalysis = na, simplifiedEEAT = ea\<rparr>)"
    by (auto simp: handler_def Let_def split: sum.splits)
  from analyzeSimplifiedEEAT_range [OF ea] have e: "0 \<le> score ea" "score ea \<le> 100"
    by simp_all
  from analyzeNetwork_range [OF na] have n: "0 \<le> score na" "score na \<le> 100"
    by simp_all
  show ?thesis
    unfolding r
    using framing_score_cases [of w userQuery]
    by (intro synthesize_range) (simp_all add: n e)
qed

text \<open>
  The instance is the second scenario of the specification: no credentials, two sources
  whose hosts resolve to one address.
\<close>

theorem overall_score_in_range_witness:
  "handler offline_world ''what are the features of X''
     [src ''http://a.example.com'', src ''http://b.example.com/page'']
   = Inr \<lparr>overallScore = 80,
          summary = ''Medium risk detected. Please review sources with caution.'',
          alternativeAnswer =
            ''The Alternative Answer feature is in development. It will show a corrected response here.'',
          metrics =
            \<lparr>queryFraming =
               \<lparr>score = 100, details = ''Analysis skipped: API Key not configured.'',
                isBiased = False\<rparr>,
             networkAnalysis =
               \<lparr>score = 60, details = ''2 domains may be part of a shared network.''\<rparr>,
             simplifiedEEAT =
               \<lparr>score = 100, details = ''Analysis skipped: API Key not configured.''\<rparr>\<rparr>\<rparr>
   \<and> (0::int) \<le> 80 \<and> (80::int) \<le> 100"
proof -
  have h: "handler offline_world ''what are the features of X''
     [src ''http://a.example.com'', src ''http://b.example.com/page'']
   = Inr \<lparr>overallScore = 80,
          summary = ''Medium risk detected. Please review sources with caution.'',
          alternativeAnswer =
            ''The Alternative Answer feature is in development. It will show a corrected response here.'',
          metrics =
            \<lparr>queryFraming =
               \<lparr>score = 100, details = ''Analysis skipped: API Key not configured.'',
                isBiased = False\<rparr>,
             networkAnalysis =
               \<lparr>score = 60, details = ''2 domains may be part of a shared network.''\<rparr>,
             simplifiedEEAT =
               \<lparr>score = 100, details = ''Analysis skipped: API Key not configured.''\<rparr>\<rparr>\<rparr>"
    by code_simp
  from overall_score_in_range [OF h] h show ?thesis by simp
qed

section \<open>The query framing analyzer\<close>

text \<open>
  Claim C9. When the credential is configured and the classification text is received,
  \<open>isBiased\<close> holds exactly when the trimmed, lower-cased text contains \<open>biased\<close> as a
  substring, and the score is 50 when \<open>isBiased\<close> holds and 100 otherwise.
\<close>

theorem query_framing_biased_iff:
  assumes "\<not> falsy_key (DEEPSEEK_API_KEY w)"
    and "chat_completion w userQuery = ChatContent content"
  shows "(isBiased (analyzeQueryFraming w userQuery)
            \<longleftrightarrow> (\<exists>ps ss. toLowerCase (trim content) = ps @ ''biased'' @ ss))
         \<and> score (analyzeQueryFraming w userQuery)
            = (if isBiased (analyzeQueryFraming w userQuery) then 50 else 100)"
  using assms
  by (simp add: analyzeQueryFraming_def Let_def str_includes_sublist sublist_def)

theorem query_framing_biased_iff_witness:
  "isBiased (analyzeQueryFraming online_world ''why is X superior to Y'')
   \<and> score (analyzeQueryFraming online_world ''why is X superior to Y'') = 50"
proof -
  have k: "\<not> falsy_key (DEEPSEEK_API_KEY online_world)"
    by (simp add: online_world_def falsy_key_def)
  have c: "chat_completion online_world ''why is X superior to Y'' = ChatContent '' Biased. ''"
    by (simp add: online_world_def)
  have t: "toLowerCase (trim '' Biased. '') = [] @ ''biased'' @ ''.''"
    by code_simp
  from query_framing_biased_iff [OF k c] t show ?thesis
    by metis
qed

section \<open>The synthesizer\<close>

text \<open>
  Claim C5. The three summary tiers are exclusive and exhaustive: the summary starts with
  the high risk text exactly when the overall score is below 60, it is the medium risk
  text exactly when the score is from 60 to 84, and the low risk text exactly when the
  score is 85 or more. In particular 60 gives the medium risk text and 85 the low risk
  text.
\<close>

theorem summary_tiers:
  "(fst (synthesizeScore res) < 60
      \<longleftrightarrow> prefix ''High risk of manipulation detected. '' (snd (synthesizeScore res)))
   \<and> (60 \<le> fst (synthesizeScore res) \<and> fst (synthesizeScore res) < 85
      \<longleftrightarrow> snd (synthesizeScore res)
          = ''Medium risk detected. Please review sources with caution.'')
   \<and> (85 \<le> fst (synthesizeScore res)
      \<longleftrightarrow> snd (synthesizeScore res)
          = ''Low risk detected. The sources appear generally trustworthy.'')
   \<and> (fst (synthesizeScore res) = 60
      \<longrightarrow> snd (synthesizeScore res)
          = ''Medium risk detected. Please review sources with caution.'')
   \<and> (fst (synthesizeScore res) = 85
      \<longrightarrow> snd (synthesizeScore res)
          = ''Low risk detected. The sources appear generally trustworthy.'')"
proof -
  consider (high) "math_round (totalScore res) < 60"
    | (medium) "60 \<le> math_round (totalScore res)" "math_round (totalScore res) < 85"
    | (low) "85 \<le> math_round (totalScore res)"
    by linarith
  then show ?thesis
  proof cases
    case high
    then show ?thesis by (simp add: synthesizeScore_def Let_def)
  next
    case medium
    then show ?thesis by (simp add: synthesizeScore_def Let_def)
  next
    case low
    then show ?thesis by (simp add: synthesizeScore_def Let_def)
  qed
qed

theorem summary_tiers_witness:
  "snd (synthesizeScore
          \<lparr>queryFraming = \<lparr>score = 100, details = '''', isBiased = False\<rparr>,
           networkAnalysis = \<lparr>score = 20, details = ''''\<rparr>,
           simplifiedEEAT = \<lparr>score = 100, details = ''''\<rparr>\<rparr>)
     = ''Medium risk detected. Please review sources with caution.''
   \<and> snd (synthesizeScore
          \<lparr>queryFraming = \<lparr>score = 50, details = '''', isBiased = True\<rparr>,
           networkAnalysis = \<lparr>score = 100, details = ''''\<rparr>,
           simplifiedEEAT = \<lparr>score = 75, details = ''''\<rparr>\<rparr>)
     = ''Low risk detected. The sources appear generally trustworthy.''"
proof -
  have m: "fst (synthesizeScore
          \<lparr>queryFraming = \<lparr>score = 100, details = '''', isBiased = False\<rparr>,
           networkAnalysis = \<lparr>score = 20, details = ''''\<rparr>,
           simplifiedEEAT = \<lparr>score = 100, details = ''''\<rparr>\<rparr>) = 60"
    by code_simp
  have l: "fst (synthesizeScore
          \<lparr>queryFraming = \<lparr>score = 50, details = '''', isBiased = True\<rparr>,
           networkAnalysis = \<lparr>score = 100, details = ''''\<rparr>,
           simplifiedEEAT = \<lparr>score = 75, details = ''''\<rparr>\<rparr>) = 85"
    by code_simp
  from m l
    summary_tiers [of "\<lparr>queryFraming = \<lparr>score = 100, details = '''', isBiased = False\<rparr>,
           networkAnalysis = \<lparr>score = 20, details = ''''\<rparr>,
           simplifiedEEAT = \<lparr>score = 100, details = ''''\<rparr>\<rparr>"]
    summary_tiers [of "\<lparr>queryFraming = \<lparr>score = 50, details = '''', isBiased = True\<rparr>,
           networkAnalysis = \<lparr>score = 100, details = ''''\<rparr>,
           simplifiedEEAT = \<lparr>score = 75, details = ''''\<rparr>\<rparr>"]
  show ?thesis by blast
qed

text \<open>
  Claim C8. When both credentials are absent and the handler responds, the query framing
  and authority scores in the response are both 100, the network result is the one
  \<open>analyzeNetwork\<close> returned, and the overall score is
  \<open>round(100 * 0.10 + networkScore * 0.50 + 100 * 0.40)\<close>.
\<close>

theorem no_credentials_score:
  assumes "falsy_key (DEEPSEEK_API_KEY w)" and "falsy_key (SEARCH_API_KEY w)"
    and "handler w userQuery citedSources = Inr r"
  shows "analyzeNetwork w citedSources = Inr (networkAnalysis (metrics r))
         \<and> score (queryFraming (metrics r)) = 100
         \<and> score (simplifiedEEAT (metrics r)) = 100
         \<and> overallScore r
            = math_round (100 * (1 / 10)
                          + of_int (score (networkAnalysis (metrics r))) * (1 / 2)
                          + 100 * (2 / 5))"
proof -
  from assms(3) obtain na where na: "analyzeNetwork w citedSources = Inr na"
    by (auto simp: handler_def Let_def split: sum.splits)
  have ea: "analyzeSimplifiedEEAT w citedSources
            = Inr \<lparr>score = 100, details = ''Analysis skipped: API Key not configured.''\<rparr>"
    using assms(2) by (simp add: analyzeSimplifiedEEAT_def)
  have qf: "score (analyzeQueryFraming w userQuery) = 100"
    using assms(1) by (simp add: analyzeQueryFraming_def)
  from assms(3) na ea qf show ?thesis
    by (auto simp: handler_def Let_def synthesizeScore_def totalScore_def)
qed

theorem no_credentials_score_witness:
  "overallScore (projr (handler offline_world ''what are the features of X''
                          [src ''http://a.example.com''])) = 100"
proof -
  have k: "falsy_key (DEEPSEEK_API_KEY offline_world)" "falsy_key (SEARCH_API_KEY offline_world)"
    by (simp_all add: offline_world_def falsy_key_def)
  have n: "analyzeNetwork offline_world [src ''http://a.example.com'']
           = Inr \<lparr>score = 100, details = ''0 domains may be part of a shared network.''\<rparr>"
    by code_simp
  obtain r where r: "handler offline_world ''what are the features of X''
                          [src ''http://a.example.com''] = Inr r"
    using n by (auto simp: handler_def Let_def analyzeSimplifiedEEAT_def k)
  note main = no_credentials_score [OF k r]
  from main n have "networkAnalysis (metrics r)
      = \<lparr>score = 100, details = ''0 domains may be part of a shared network.''\<rparr>"
    by simp
  then have "score (networkAnalysis (metrics r)) = 100" by simp
  with main have "overallScore r = 100" by (simp add: math_round_def floor_eq_iff)
  then show ?thesis by (simp add: r)
qed

section \<open>The authority analyzer\<close>

text \<open>
  Claim C7, as amended. For the empty list of sources the authority analyzer returns the
  score 100; the details are \<open>No sources to analyze.\<close> when the search credential is
  configured, and \<open>Analysis skipped: API Key not configured.\<close> when it is not, since
  the credential is checked first (lines 97 to 101).
\<close>

theorem empty_sources_authority:
  "analyzeSimplifiedEEAT w [] =
     Inr \<lparr>score = 100,
          details = (if falsy_key (SEARCH_API_KEY w)
                     then ''Analysis skipped: API Key not configured.''
                     else ''No sources to analyze.'')\<rparr>"
  by (simp add: analyzeSimplifiedEEAT_def)

theorem empty_sources_authority_witness:
  "analyzeSimplifiedEEAT online_world [] =
     Inr \<lparr>score = 100, details = ''No sources to analyze.''\<rparr>"
proof -
  have "\<not> falsy_key (SEARCH_API_KEY online_world)"
    by (simp add: online_world_def falsy_key_def)
  with empty_sources_authority [of online_world] show ?thesis by simp
qed

text \<open>
  Claim C7 as stated fails without the search credential: the details are not
  \<open>No sources to analyze.\<close>
\<close>

theorem empty_sources_authority_counterexample:
  "analyzeSimplifiedEEAT offline_world [] =
     Inr \<lparr>score = 100, details = ''Analysis skipped: API Key not configured.''\<rparr>
   \<and> analyzeSimplifiedEEAT offline_world [] \<noteq>
     Inr \<lparr>score = 100, details = ''No sources to analyze.''\<rparr>"
  by (simp add: analyzeSimplifiedEEAT_def offline_world_def falsy_key_def)

text \<open>
  Claim C4, as amended. With the credential configured and sources given, the score is
  the mean of the contributions of the unique domains, rounded to the nearest integer (a
  half rounds up). A domain whose result count is \<open>c\<close> contributes 20 when \<open>c < 1000\<close>, 70
  when \<open>1000 \<le> c < 100000\<close> and 100 otherwise. A domain whose lookup throws (the request
  is rejected, or the body is not JSON, or it is \<open>null\<close>) contributes 50. A lookup that
  fails with a response that parses but carries no result count, whatever its HTTP
  status, is read as the count 0 and contributes 20.
\<close>

theorem authority_score_is_rounded_mean:
  assumes "\<not> falsy_key (SEARCH_API_KEY w)" and "citedSources \<noteq> []"
    and "uniqueDomains w citedSources = Inr domains"
  shows "(\<exists>r. analyzeSimplifiedEEAT w citedSources = Inr r
            \<and> score r = math_round (of_int (sum_list (map (contribution w) domains))
                                     / of_nat (length domains))
            \<and> \<bar>of_int (score r) - of_int (sum_list (map (contribution w) domains))
                                     / of_nat (length domains)\<bar> \<le> (1 / 2 :: rat))
         \<and> (\<forall>d st c. serp_search w d = HttpResponse st (JsonValue (Some c))
               \<longrightarrow> contribution w d
                   = (if c < 1000 then 20 else if c < 100000 then 70 else 100))
         \<and> (\<forall>d st. serp_search w d = FetchRejects
                     \<or> serp_search w d = HttpResponse st NotJson
                     \<or> serp_search w d = HttpResponse st JsonNull
               \<longrightarrow> contribution w d = 50)
         \<and> (\<forall>d st. serp_search w d = HttpResponse st (JsonValue None)
               \<longrightarrow> contribution w d = 20)"
proof -
  let ?mean = "of_int (sum_list (map (contribution w) domains)) / of_nat (length domains) :: rat"
  obtain t l where st: "authority_loop w domains = (t, l)"
    by (cases "authority_loop w domains")
  have t: "t = sum_list (map (contribution w) domains)"
    using authority_loop_total [of w domains] st by simp
  have r: "analyzeSimplifiedEEAT w citedSources
           = Inr (authority_result (t, l) (length domains))"
    using assms by (simp add: analyzeSimplifiedEEAT_def st)
  have s: "score (authority_result (t, l) (length domains)) = math_round ?mean"
    by (simp add: authority_result_def Let_def t)
  have first: "\<exists>r. analyzeSimplifiedEEAT w citedSources = Inr r
            \<and> score r = math_round ?mean \<and> \<bar>of_int (score r) - ?mean\<bar> \<le> (1 / 2 :: rat)"
    using r s math_round_nearest [of ?mean] by simp
  have counted: "\<forall>d st c. serp_search w d = HttpResponse st (JsonValue (Some c))
               \<longrightarrow> contribution w d
                   = (if c < 1000 then 20 else if c < 100000 then 70 else 100)"
    by (simp add: contribution_def authority_step_def)
  have failed: "\<forall>d st. serp_search w d = FetchRejects
                     \<or> serp_search w d = HttpResponse st NotJson
                     \<or> serp_search w d = HttpResponse st JsonNull
               \<longrightarrow> contribution w d = 50"
    by (auto simp: contribution_def authority_step_def)
  have uncounted: "\<forall>d st. serp_search w d = HttpResponse st (JsonValue None)
               \<longrightarrow> contribution w d = 20"
    by (simp add: contribution_def authority_step_def)
  from first counted failed uncounted show ?thesis by blast
qed

theorem authority_score_is_rounded_mean_witness:
  "contribution online_world ''a.example.com'' = 70
   \<and> contribution online_world ''b.example.com'' = 20
   \<and> contribution online_world ''c.example.org'' = 50
   \<and> (\<exists>r. analyzeSimplifiedEEAT online_world
             [src ''http://a.example.com'', src ''http://a.example.com/about'',
              src ''http://b.example.com/page'', src ''https://c.example.org''] = Inr r
          \<and> score r = 47)"
proof -
  have k: "\<not> falsy_key (SEARCH_API_KEY online_world)"
    by (simp add: online_world_def falsy_key_def)
  have n: "[src ''http://a.example.com'', src ''http://a.example.com/about'',
            src ''http://b.example.com/page'', src ''https://c.example.org''] \<noteq> []"
    by simp
  have u: "uniqueDomains online_world
             [src ''http://a.example.com'', src ''http://a.example.com/about'',
              src ''http://b.example.com/page'', src ''https://c.example.org'']
           = Inr [''a.example.com'', ''b.example.com'', ''c.example.org'']"
    by code_simp
  note main = authority_score_is_rounded_mean [OF k n u]
  have sa: "serp_search online_world ''a.example.com''
            = HttpResponse 200 (JsonValue (Some 5000))"
    by (simp add: online_world_def demo_search_def)
  have sb: "serp_search online_world ''b.example.com'' = HttpResponse 401 (JsonValue None)"
    by (simp add: online_world_def demo_search_def)
  have sc: "serp_search online_world ''c.example.org'' = FetchRejects"
    by (simp add: online_world_def demo_search_def)
  from main sa have a: "contribution online_world ''a.example.com'' = 70"
    by fastforce
  from main sb have b: "contribution online_world ''b.example.com'' = 20"
    by blast
  from main sc have c: "contribution online_world ''c.example.org'' = 50"
    by blast
  have m: "math_round (of_int (sum_list [70, 20, 50])
                       / of_nat (length [''a.example.com'', ''b.example.com'',
                                         ''c.example.org''])) = 47"
    by code_simp
  from main a b c m
  have "\<exists>r. analyzeSimplifiedEEAT online_world
             [src ''http://a.example.com'', src ''http://a.example.com/about'',
              src ''http://b.example.com/page'', src ''https://c.example.org''] = Inr r
          \<and> score r = 47"
    by auto
  with a b c show ?thesis by blast
qed

text \<open>
  Claim C4 as stated fails for a lookup that fails with status 401 and a JSON error
  object: that domain contributes 20, not 50, and with a second domain of 5000 results
  the score is 45, where contributions of 70 and 50 would give 60.
\<close>

theorem authority_failed_lookup_counterexample:
  "serp_search online_world ''b.example.com'' = HttpResponse 401 (JsonValue None)
   \<and> uniqueDomains online_world
         [src ''http://a.example.com'', src ''http://b.example.com/page'']
       = Inr [''a.example.com'', ''b.example.com'']
   \<and> map (contribution online_world) [''a.example.com'', ''b.example.com''] = [70, 20]
   \<and> analyzeSimplifiedEEAT online_world
         [src ''http://a.example.com'', src ''http://b.example.com/page'']
       = Inr \<lparr>score = 45, details = ''1 domains have very low authority.''\<rparr>
   \<and> math_round ((70 + 50) / 2) = 60"
  by code_simp

text \<open>
  Claim C6, as amended. A domain whose search call throws inside the \<open>try\<close> block (the
  request is rejected, the body is not JSON, or the body is \<open>null\<close>) adds exactly 50 and
  leaves the low authority counter as it is, whatever the HTTP status. A response that
  parses but has no \<open>search_information.total_results\<close> is read as the count 0: it adds
  20 and counts as low authority. No failure of the search call leaves the analyzer: an
  exception of the analyzer comes from a source URL that does not parse.
\<close>

theorem search_failure_contribution:
  "(serp_search w d = FetchRejects \<or> serp_search w d = HttpResponse st NotJson
      \<or> serp_search w d = HttpResponse st JsonNull
    \<longrightarrow> authority_step w (t, l) d = (t + 50, l))
   \<and> (serp_search w d = HttpResponse st (JsonValue None)
    \<longrightarrow> authority_step w (t, l) d = (t + 20, l + 1))
   \<and> (analyzeSimplifiedEEAT w citedSources = Inl e
    \<longrightarrow> (\<exists>s\<in>set citedSources. url_hostname w (url s) = None))"
proof (intro conjI impI)
  assume "serp_search w d = FetchRejects \<or> serp_search w d = HttpResponse st NotJson
      \<or> serp_search w d = HttpResponse st JsonNull"
  then show "authority_step w (t, l) d = (t + 50, l)"
    by (auto simp: authority_step_def)
next
  assume "serp_search w d = HttpResponse st (JsonValue None)"
  then show "authority_step w (t, l) d = (t + 20, l + 1)"
    by (simp add: authority_step_def)
next
  assume "analyzeSimplifiedEEAT w citedSources = Inl e"
  then have "\<exists>e'. uniqueDomains w citedSources = Inl e'"
    by (auto simp: analyzeSimplifiedEEAT_def split: if_splits sum.splits)
  then have "\<exists>e'. hostnames w citedSources = Inl e'"
    by (auto simp: uniqueDomains_def split: sum.splits)
  then show "\<exists>s\<in>set citedSources. url_hostname w (url s) = None"
    by (induction citedSources) (auto split: option.splits sum.splits)
qed

theorem search_failure_contribution_witness:
  "authority_step online_world (70, 0) ''c.example.org'' = (120, 0)
   \<and> authority_step online_world (70, 0) ''b.example.com'' = (90, 1)
   \<and> (\<exists>s\<in>set [src ''http://a.example.com'', src ''not a url''].
         url_hostname online_world (url s) = None)"
proof -
  have c: "serp_search online_world ''c.example.org'' = FetchRejects"
    by (simp add: online_world_def demo_search_def)
  have b: "serp_search online_world ''b.example.com'' = HttpResponse 401 (JsonValue None)"
    by (simp add: online_world_def demo_search_def)
  have u: "analyzeSimplifiedEEAT online_world [src ''http://a.example.com'', src ''not a url'']
           = Inl (InvalidURL ''not a url'')"
    by code_simp
  note inst = search_failure_contribution
    [of online_world _ _ 70 0 "[src ''http://a.example.com'', src ''not a url'']"
        "InvalidURL ''not a url''"]
  from c inst [of "''c.example.org''" 0]
  have "authority_step online_world (70, 0) ''c.example.org'' = (120, 0)" by simp
  moreover
  from b inst [of "''b.example.com''" 401]
  have "authority_step online_world (70, 0) ''b.example.com'' = (90, 1)" by simp
  moreover
  from u inst [of "''b.example.com''" 401]
  have "\<exists>s\<in>set [src ''http://a.example.com'', src ''not a url''].
         url_hostname online_world (url s) = None" by blast
  ultimately show ?thesis by blast
qed

text \<open>
  Claim C6 as stated fails for a response with status 401 whose JSON body has no
  \<open>total_results\<close>: the domain adds 20, not 50.
\<close>

theorem search_failure_contribution_counterexample:
  "serp_search online_world ''b.example.com'' = HttpResponse 401 (JsonValue None)
   \<and> authority_step online_world (0, 0) ''b.example.com'' = (20, 1)
   \<and> contribution online_world ''b.example.com'' \<noteq> 50
   \<and> analyzeSimplifiedEEAT online_world [src ''http://b.example.com/page'']
     = Inr \<lparr>score = 20, details = ''1 domains have very low authority.''\<rparr>"
  by code_simp

text \<open>
  Claim C10. When the authority analyzer computes a score (credential configured,
  sources given), every iteration adds 20, 50, 70 or 100, so the score is at least 20;
  the score of the network analyzer, in contrast, can be 0.
\<close>

theorem authority_score_at_least_20:
  assumes "\<not> falsy_key (SEARCH_API_KEY w)" and "citedSources \<noteq> []"
    and "analyzeSimplifiedEEAT w citedSources = Inr r"
  shows "(\<forall>d t l. fst (authority_step w (t, l) d) - t \<in> {20, 50, 70, 100})
         \<and> 20 \<le> score r
         \<and> (\<exists>w' sources' r'. analyzeNetwork w' sources' = Inr r' \<and> score r' = 0)"
proof -
  have steps: "\<forall>d t l. fst (authority_step w (t, l) d) - t \<in> {20, 50, 70, 100}"
    using contribution_cases [of w] by (simp add: authority_step_total)
  from assms obtain ds where ds: "uniqueDomains w citedSources = Inr ds"
    and r: "r = authority_result (authority_loop w ds) (length ds)"
    by (auto simp: analyzeSimplifiedEEAT_def split: sum.splits)
  from uniqueDomains_nonempty [OF ds assms(2)] have "ds \<noteq> []" .
  from authority_result_range [OF this, of w] have low: "20 \<le> score r"
    by (simp add: r)
  have "analyzeNetwork farm_world farm_sources
        = Inr \<lparr>score = 0, details = ''5 domains may be part of a shared network.''\<rparr>"
    by code_simp
  then have zero: "\<exists>w' sources' r'. analyzeNetwork w' sources' = Inr r' \<and> score r' = 0"
    by (metis analyzer_result.select_convs(1))
  from steps low zero show ?thesis by blast
qed

theorem authority_score_at_least_20_witness:
  "20 \<le> score \<lparr>score = 20, details = ''1 domains have very low authority.''\<rparr>
   \<and> analyzeSimplifiedEEAT online_world [src ''http://b.example.com/page'']
     = Inr \<lparr>score = 20, details = ''1 domains have very low authority.''\<rparr>"
proof -
  have k: "\<not> falsy_key (SEARCH_API_KEY online_world)"
    by (simp add: online_world_def falsy_key_def)
  have n: "[src ''http://b.example.com/page''] \<noteq> []" by simp
  have r: "analyzeSimplifiedEEAT online_world [src ''http://b.example.com/page'']
     = Inr \<lparr>score = 20, details = ''1 domains have very low authority.''\<rparr>"
    by code_simp
  from authority_score_at_least_20 [OF k n r] r show ?thesis by blast
qed

section \<open>The network analyzer\<close>

text \<open>
  Claim C3. Let \<open>N \<ge> 2\<close> of the unique domains resolve to the address \<open>ip\<close>, and let any
  two other domains that resolve have different addresses. Then \<open>sharedIpDomains\<close>
  consists of those \<open>N\<close> domains, its size is \<open>N\<close>, and the score is
  \<open>max(0, 100 - 20 * N)\<close>. A domain that shares its lookup result with no other domain
  is not in \<open>sharedIpDomains\<close>.
\<close>

theorem shared_ip_cluster:
  assumes u: "uniqueDomains w citedSources = Inr domains"
    and N: "2 \<le> N"
    and cluster: "length (filter (\<lambda>d. dns_lookup w d = Some ip) domains) = N"
    and others: "\<forall>d\<in>set domains. \<forall>d'\<in>set domains.
                   d \<noteq> d' \<and> dns_lookup w d = dns_lookup w d' \<and> dns_lookup w d \<noteq> None
                   \<longrightarrow> dns_lookup w d = Some ip"
  shows "set (snd (network_loop w domains)) = {d \<in> set domains. dns_lookup w d = Some ip}
         \<and> length (snd (network_loop w domains)) = N
         \<and> (\<exists>r. analyzeNetwork w citedSources = Inr r
                 \<and> score r = max 0 (100 - 20 * int N))
         \<and> (\<forall>d\<in>set domains.
               (\<forall>d'\<in>set domains. d' \<noteq> d \<longrightarrow> dns_lookup w d' \<noteq> dns_lookup w d)
               \<longrightarrow> d \<notin> set (snd (network_loop w domains)))"
proof -
  let ?shared = "snd (network_loop w domains)"
  from u obtain hs where ds: "domains = new_Set hs"
    by (auto simp: uniqueDomains_def split: sum.splits)
  then have dist: "distinct domains" by (simp add: distinct_new_Set)
  have members: "set ?shared = {d \<in> set domains. dns_lookup w d = Some ip}"
  proof (intro set_eqI iffI)
    fix d assume "d \<in> set ?shared"
    then have d: "d \<in> set domains" "dns_lookup w d \<noteq> None"
      and "\<exists>y\<in>set domains. y \<noteq> d \<and> dns_lookup w y = dns_lookup w d"
      by (simp_all add: shared_iff_cohosted [OF dist])
    then obtain y where "y \<in> set domains" "y \<noteq> d" "dns_lookup w y = dns_lookup w d"
      by blast
    with others d have "dns_lookup w d = Some ip" by metis
    with d(1) show "d \<in> {d \<in> set domains. dns_lookup w d = Some ip}" by simp
  next
    fix d assume "d \<in> {d \<in> set domains. dns_lookup w d = Some ip}"
    with N cluster show "d \<in> set ?shared"
      by (auto simp: network_loop_shared)
  qed
  have "length ?shared = card (set ?shared)"
    by (simp add: distinct_card network_loop_distinct)
  also have "\<dots> = card (set (filter (\<lambda>d. dns_lookup w d = Some ip) domains))"
    by (simp add: members)
  also have "\<dots> = N"
    using dist cluster
      distinct_card [of "filter (\<lambda>d. dns_lookup w d = Some ip) domains"]
    by simp
  finally have size: "length ?shared = N" .
  from N cluster have "domains \<noteq> []" by auto
  with u have "citedSources \<noteq> []"
    by (auto simp: uniqueDomains_def new_Set_def)
  then have "analyzeNetwork w citedSources = Inr (network_result ?shared)"
    by (simp add: analyzeNetwork_def u)
  moreover have "score (network_result ?shared) = max 0 (100 - 20 * int N)"
    by (simp add: network_result_def Let_def size)
  ultimately have result: "\<exists>r. analyzeNetwork w citedSources = Inr r
                 \<and> score r = max 0 (100 - 20 * int N)"
    by blast
  have alone: "\<forall>d\<in>set domains.
               (\<forall>d'\<in>set domains. d' \<noteq> d \<longrightarrow> dns_lookup w d' \<noteq> dns_lookup w d)
               \<longrightarrow> d \<notin> set ?shared"
    by (auto simp: shared_iff_cohosted [OF dist])
  from members size result alone show ?thesis by blast
qed

theorem shared_ip_cluster_witness:
  "set (snd (network_loop offline_world [''a.example.com'', ''b.example.com'', ''c.example.org'']))
     = {''a.example.com'', ''b.example.com''}
   \<and> (\<exists>r. analyzeNetwork offline_world
             [src ''http://a.example.com'', src ''http://b.example.com/page'',
              src ''https://c.example.org''] = Inr r
          \<and> score r = 60)"
proof -
  let ?ds = "[''a.example.com'', ''b.example.com'', ''c.example.org'']"
  have u: "uniqueDomains offline_world
             [src ''http://a.example.com'', src ''http://b.example.com/page'',
              src ''https://c.example.org''] = Inr ?ds"
    by code_simp
  have N: "(2::nat) \<le> 2" by simp
  have cluster: "length (filter (\<lambda>d. dns_lookup offline_world d = Some ''203.0.113.7'') ?ds) = 2"
    by (simp add: offline_world_def demo_dns_def)
  have others: "\<forall>d\<in>set ?ds. \<forall>d'\<in>set ?ds.
                   d \<noteq> d' \<and> dns_lookup offline_world d = dns_lookup offline_world d'
                     \<and> dns_lookup offline_world d \<noteq> None
                   \<longrightarrow> dns_lookup offline_world d = Some ''203.0.113.7''"
    by (simp add: offline_world_def demo_dns_def)
  have members: "{d \<in> set ?ds. dns_lookup offline_world d = Some ''203.0.113.7''}
                 = {''a.example.com'', ''b.example.com''}"
    by (auto simp: offline_world_def demo_dns_def)
  from shared_ip_cluster [OF u N cluster others] members show ?thesis
    by simp
qed

section \<open>The request handler\<close>

text \<open>
  Claim C2, as amended. The handler sends a response exactly when every source URL
  parses. No behaviour of DNS, of the chat completion service or of the search service
  keeps it from responding; a source URL that \<open>new URL\<close> rejects does.
\<close>

theorem handler_responds_iff_urls_parse:
  "(\<exists>r. handler w userQuery citedSources = Inr r)
   \<longleftrightarrow> (\<forall>s\<in>set citedSources. url_hostname w (url s) \<noteq> None)"
proof
  assume "\<exists>r. handler w userQuery citedSources = Inr r"
  then have "\<exists>na. analyzeNetwork w citedSources = Inr na"
    by (auto simp: handler_def Let_def split: sum.splits)
  then show "\<forall>s\<in>set citedSources. url_hostname w (url s) \<noteq> None"
    by (simp add: analyzeNetwork_Inr_iff)
next
  assume ok: "\<forall>s\<in>set citedSources. url_hostname w (url s) \<noteq> None"
  then obtain na where na: "analyzeNetwork w citedSources = Inr na"
    using analyzeNetwork_Inr_iff [of w citedSources] by blast
  from analyzeSimplifiedEEAT_Inr_if [OF ok]
  obtain ea where ea: "analyzeSimplifiedEEAT w citedSources = Inr ea" by blast
  show "\<exists>r. handler w userQuery citedSources = Inr r"
    by (simp add: handler_def Let_def na ea)
qed

theorem handler_responds_iff_urls_parse_witness:
  "\<exists>r. handler online_world ''why is X superior to Y''
         [src ''http://a.example.com'', src ''https://c.example.org''] = Inr r"
proof -
  have "\<forall>s\<in>set [src ''http://a.example.com'', src ''https://c.example.org''].
          url_hostname online_world (url s) \<noteq> None"
    by (simp add: online_world_def demo_urls_def src_def)
  then show ?thesis
    using handler_responds_iff_urls_parse
            [of online_world "''why is X superior to Y''"
                "[src ''http://a.example.com'', src ''https://c.example.org'']"]
    by blast
qed

text \<open>
  Claim C2 as stated fails for a source whose URL does not parse: the exception of
  \<open>new URL\<close> leaves \<open>analyzeNetwork\<close> and the handler, and no response is sent.
\<close>

theorem handler_malformed_url_counterexample:
  "handler online_world ''why is X superior to Y''
     [src ''http://a.example.com'', src ''not a url'']
   = Inl (InvalidURL ''not a url'')"
  by code_simp

end
